theory Spec2Isabelle
  imports Main
begin

section \<open>Strings and errors\<close>

text \<open>
  A Python \<open>str\<close> is a sequence of Unicode code points, so it is modelled as a list of
  natural numbers; \<open>py\<close> turns an Isabelle string literal into such a list.
  Exceptions are values of the type \<open>error\<close>; a call that can raise returns
  \<open>error + 'a\<close> with \<open>Inl\<close> for the exception.
\<close>

type_synonym pystr = "nat list"

abbreviation py :: "string \<Rightarrow> pystr" where
  "py s \<equiv> map of_char s"

datatype error = ValueError | RuntimeError | IndexError | AttributeError | OverflowError

definition and_then :: "error + 'a \<Rightarrow> ('a \<Rightarrow> error + 'b) \<Rightarrow> error + 'b" where
  "and_then r f = (case r of Inl e \<Rightarrow> Inl e | Inr x \<Rightarrow> f x)"

text \<open>The module constants of \<open>types.py\<close>.\<close>

definition HEX_DIGITS :: "nat set" where
  "HEX_DIGITS = set (py ''0123456789abcdefABCDEF'')"

definition GROUP_NAME_CHARS :: "nat set" where
  "GROUP_NAME_CHARS =
     set (py ''abcdefghijklmnopqrstuvwxyzABCDEFGHIJKLMNOPQRSTUVWXYZ0123456789_'')"

definition SPECIAL_CHARS :: "nat set" where
  "SPECIAL_CHARS = set (92 # py ''.^$|?*+()[]{}-'')"

text \<open>\<open>s.translate(ESCAPE_TABLE)\<close>: every special character gets a backslash in front.\<close>

definition translate :: "pystr \<Rightarrow> pystr" where
  "translate s = concat (map (\<lambda>c. if c \<in> SPECIAL_CHARS then [92, c] else [c]) s)"

text \<open>\<open>sep.join(bits)\<close>.\<close>

fun join :: "pystr \<Rightarrow> pystr list \<Rightarrow> pystr" where
  "join sep [] = []"
| "join sep [x] = x"
| "join sep (x # y # ys) = x @ sep @ join sep (y # ys)"

text \<open>The decimal text of an integer, as an f-string prints it.\<close>

fun str_nat :: "nat \<Rightarrow> pystr" where
  "str_nat n = (if n < 10 then [48 + n] else str_nat (n div 10) @ [48 + n mod 10])"

declare str_nat.simps [simp del]

definition str_int :: "int \<Rightarrow> pystr" where
  "str_int i = (if i < 0 then 45 # str_nat (nat (- i)) else str_nat (nat i))"

text \<open>
  \<open>chr(i)\<close>: a code point for \<open>0 \<le> i < 0x110000\<close>, \<open>ValueError\<close> outside that range and
  \<open>OverflowError\<close> when \<open>i\<close> does not fit a C int.
\<close>

definition chr :: "int \<Rightarrow> error + nat" where
  "chr i = (if i < - 2147483648 \<or> 2147483647 < i then Inl OverflowError
            else if i < 0 \<or> 1114112 \<le> i then Inl ValueError
            else Inr (nat i))"

section \<open>The node model (\<open>types.py\<close>)\<close>

text \<open>
  The classes of \<open>types.py\<close> form a tagged union. The two base classes that carry
  \<open>add_child\<close> and \<open>replace_child\<close> are the constructors \<open>ContainsChildren\<close> (a tuple of
  children) and \<open>ContainsChild\<close> (one optional child, \<open>None\<close> until it is set); the
  concrete subclass and its extra fields are the first argument, which
  \<open>type(self)(**kwargs)\<close> preserves. Every subclass of \<open>ContainsChild\<close> is a
  \<open>Quantifier\<close>.

  A node of the model is an object that exists, that is, one whose \<open>__post_init__\<close> has
  passed; the checks of \<open>__post_init__\<close> are the \<open>mk_\<close> functions below. \<open>Char\<close>, \<open>Range\<close>
  and \<open>AnythingButRange\<close> (the first two are \<open>Char_elem\<close> and \<open>Range_elem\<close> here) accept an \<open>int\<close> or a \<open>str\<close> and only ever read it through
  \<open>_char\<close>, \<open>_low\<close> and \<open>_high\<close>, so the node stores that character. \<open>Unicode\<close> renders
  in one of three forms depending on \<open>unicodedata.lookup\<close>; \<open>__post_init__\<close> renders it
  once, and the node stores the form that was taken.
\<close>

datatype quantifier =
    Exactly int | AtLeast int | Between int int | BetweenLazy int int
  | ZeroOrMore | ZeroOrMoreLazy | OneOrMore | OneOrMoreLazy | Opt

datatype container =
    Root | Capture | Subexpression | NamedCapture pystr | Group | AnyOf
  | AssertAhead | AssertNotAhead

datatype unicode_form = Named | SingleByte | DoubleByte

datatype elem =
    ContainsChild quantifier "elem option"
  | ContainsChildren container "elem list"
  | Noop | StartOfInput | EndOfInput | AnyChar | WhitespaceChar | NonWhitespaceChar
  | Digit | NonDigit | Word | NonWord | WordBoundary | NonWordBoundary
  | Newline | CarriageReturn | Tab | NullByte
  | AnyOfChars pystr | AnythingButString pystr | AnythingButChars pystr
  | AnythingButRange nat nat | Char_elem nat | Range_elem nat nat | String pystr
  | NamedBackReference pystr | Backreference int
  | AsciiBell | AsciiBackspace | AsciiFormfeed | AsciiVerticalTab | Backslash
  | StartOfString | EndOfString | Hex pystr | Unicode unicode_form pystr

subsection \<open>Rendering: the \<open>__str__\<close> methods\<close>

text \<open>
  The code point 92 is the backslash. A lazy quantifier's \<open>symbol\<close> is
  \<open>super().symbol + '?'\<close>, written out.
\<close>

fun symbol :: "quantifier \<Rightarrow> pystr" where
  "symbol (Exactly n) = py ''{'' @ str_int n @ py ''}''"
| "symbol (AtLeast n) = py ''{'' @ str_int n @ py '',}''"
| "symbol (Between low high) = py ''{'' @ str_int low @ py '','' @ str_int high @ py ''}''"
| "symbol (BetweenLazy low high) =
     (py ''{'' @ str_int low @ py '','' @ str_int high @ py ''}'') @ py ''?''"
| "symbol ZeroOrMore = py ''*''"
| "symbol ZeroOrMoreLazy = py ''*'' @ py ''?''"
| "symbol OneOrMore = py ''+''"
| "symbol OneOrMoreLazy = py ''+'' @ py ''?''"
| "symbol Opt = py ''?''"

text \<open>\<open>isinstance(child, QuantifierRequiresGroup)\<close>: \<open>Root\<close>, \<open>String\<close> and \<open>Subexpression\<close>.\<close>

fun QuantifierRequiresGroup :: "elem \<Rightarrow> bool" where
  "QuantifierRequiresGroup (ContainsChildren Root children) = True"
| "QuantifierRequiresGroup (ContainsChildren Subexpression children) = True"
| "QuantifierRequiresGroup (String string) = True"
| "QuantifierRequiresGroup e = False"

text \<open>
  What \<open>AnyOf.__str__\<close> appends to \<open>fusable\<close> for a child: defined exactly when
  \<open>type(child)\<close> is \<open>Char\<close>, \<open>AnyOfChars\<close> or \<open>Range\<close>.
\<close>

fun fusable :: "elem \<Rightarrow> pystr option" where
  "fusable (Char_elem c) = Some (translate [c])"
| "fusable (AnyOfChars chars) = Some (translate chars)"
| "fusable (Range_elem low high) = Some (translate [low] @ py ''-'' @ translate [high])"
| "fusable e = None"

fun str_elem :: "elem \<Rightarrow> pystr" where
  "str_elem (ContainsChild q None) = py ''None'' @ symbol q"
| "str_elem (ContainsChild q (Some child)) =
     (if QuantifierRequiresGroup child then py ''(?:'' @ str_elem child @ py '')''
      else str_elem child) @ symbol q"
| "str_elem (ContainsChildren Root children) = concat (map str_elem children)"
| "str_elem (ContainsChildren Capture children) =
     py ''('' @ concat (map str_elem children) @ py '')''"
| "str_elem (ContainsChildren Subexpression children) = concat (map str_elem children)"
| "str_elem (ContainsChildren (NamedCapture name) children) =
     py ''(?P<'' @ name @ py ''>'' @ concat (map str_elem children) @ py '')''"
| "str_elem (ContainsChildren Group children) =
     py ''(?:'' @ concat (map str_elem children) @ py '')''"
| "str_elem (ContainsChildren AnyOf children) =
     (if List.map_filter fusable children \<noteq> [] then
        (if map str_elem (filter (\<lambda>c. fusable c = None) children) = []
         then py ''['' @ concat (List.map_filter fusable children) @ py '']''
         else py ''(?:''
              @ join (py ''|'')
                  (map str_elem (filter (\<lambda>c. fusable c = None) children)
                   @ [py ''['' @ concat (List.map_filter fusable children) @ py '']''])
              @ py '')'')
      else py ''(?:''
           @ join (py ''|'') (map str_elem (filter (\<lambda>c. fusable c = None) children))
           @ py '')'')"
| "str_elem (ContainsChildren AssertAhead children) =
     py ''(?='' @ concat (map str_elem children) @ py '')''"
| "str_elem (ContainsChildren AssertNotAhead children) =
     py ''(?!'' @ concat (map str_elem children) @ py '')''"
| "str_elem Noop = []"
| "str_elem StartOfInput = py ''^''"
| "str_elem EndOfInput = py ''$''"
| "str_elem AnyChar = py ''.''"
| "str_elem WhitespaceChar = 92 # py ''s''"
| "str_elem NonWhitespaceChar = 92 # py ''S''"
| "str_elem Digit = 92 # py ''d''"
| "str_elem NonDigit = 92 # py ''D''"
| "str_elem Word = 92 # py ''w''"
| "str_elem NonWord = 92 # py ''W''"
| "str_elem WordBoundary = 92 # py ''b''"
| "str_elem NonWordBoundary = 92 # py ''B''"
| "str_elem Newline = 92 # py ''n''"
| "str_elem CarriageReturn = 92 # py ''r''"
| "str_elem Tab = 92 # py ''t''"
| "str_elem NullByte = 92 # py ''x00''"
| "str_elem (AnyOfChars chars) = py ''['' @ translate chars @ py '']''"
| "str_elem (AnythingButString string) =
     py ''(?:'' @ concat (map (\<lambda>c. py ''[^'' @ translate [c] @ py '']'') string) @ py '')''"
| "str_elem (AnythingButChars chars) = py ''[^'' @ translate chars @ py '']''"
| "str_elem (AnythingButRange low high) =
     py ''[^'' @ translate [low] @ py ''-'' @ translate [high] @ py '']''"
| "str_elem (Char_elem c) = translate [c]"
| "str_elem (Range_elem low high) = py ''['' @ translate [low] @ py ''-'' @ translate [high] @ py '']''"
| "str_elem (String string) = translate string"
| "str_elem (NamedBackReference name) = 92 # py ''g<'' @ name @ py ''>''"
| "str_elem (Backreference index) = 92 # str_int index"
| "str_elem AsciiBell = 92 # py ''a''"
| "str_elem AsciiBackspace = 92 # py ''b''"
| "str_elem AsciiFormfeed = 92 # py ''f''"
| "str_elem AsciiVerticalTab = 92 # py ''v''"
| "str_elem Backslash = [92, 92]"
| "str_elem StartOfString = 92 # py ''A''"
| "str_elem EndOfString = 92 # py ''Z''"
| "str_elem (Hex code) = 92 # py ''x'' @ code"
| "str_elem (Unicode Named code) = 92 # py ''N{'' @ code @ py ''}''"
| "str_elem (Unicode SingleByte code) = 92 # py ''u'' @ code"
| "str_elem (Unicode DoubleByte code) = 92 # py ''U'' @ code"

text \<open>
  A single leaf in the sense of the rendering rules: a node without children other than
  the literal string (which is marked \<open>QuantifierRequiresGroup\<close>).
\<close>

definition single_leaf :: "elem \<Rightarrow> bool" where
  "single_leaf e = (case e of ContainsChild q c \<Rightarrow> False | ContainsChildren k cs \<Rightarrow> False
                    | String s \<Rightarrow> False | _ \<Rightarrow> True)"

subsection \<open>Construction checks: the \<open>__post_init__\<close> methods\<close>

text \<open>An argument of type \<open>Union[int, str]\<close>.\<close>

datatype CharT = IntT int | StrT pystr

text \<open>\<open>_char\<close>, \<open>_low\<close> and \<open>_high\<close>: \<open>chr\<close> of an \<open>int\<close>, the string itself otherwise.\<close>

definition text_of :: "CharT \<Rightarrow> error + pystr" where
  "text_of c = (case c of IntT i \<Rightarrow> and_then (chr i) (\<lambda>n. Inr [n]) | StrT s \<Rightarrow> Inr s)"

definition mk_AnyOfChars :: "pystr \<Rightarrow> error + elem" where
  "mk_AnyOfChars chars = (if chars = [] then Inl ValueError else Inr (AnyOfChars chars))"

definition mk_AnythingButString :: "pystr \<Rightarrow> error + elem" where
  "mk_AnythingButString s = (if s = [] then Inl ValueError else Inr (AnythingButString s))"

definition mk_AnythingButChars :: "pystr \<Rightarrow> error + elem" where
  "mk_AnythingButChars chars =
     (if chars = [] then Inl ValueError else Inr (AnythingButChars chars))"

text \<open>
  \<open>AnythingButRange.__post_init__\<close>, inherited by \<open>Range\<close>; \<open>mk\<close> is the class that is
  being built.
\<close>

definition mk_range :: "(nat \<Rightarrow> nat \<Rightarrow> elem) \<Rightarrow> CharT \<Rightarrow> CharT \<Rightarrow> error + elem" where
  "mk_range mk low high =
     and_then (text_of low) (\<lambda>l. and_then (text_of high) (\<lambda>h.
       if length l \<noteq> 1 then Inl ValueError
       else if length h \<noteq> 1 then Inl ValueError
       else if hd h \<le> hd l then Inl ValueError
       else Inr (mk (hd l) (hd h))))"

definition mk_Char :: "CharT \<Rightarrow> error + elem" where
  "mk_Char c =
     (case c of
        StrT s \<Rightarrow> if length s \<noteq> 1 then Inl ValueError else Inr (Char_elem (hd s))
      | IntT i \<Rightarrow> and_then (chr i) (\<lambda>n. Inr (Char_elem n)))"

definition mk_String :: "pystr \<Rightarrow> error + elem" where
  "mk_String s = (if s = [] then Inl ValueError else Inr (String s))"

text \<open>
  The name check shared by \<open>NamedBackReference\<close> and \<open>NamedCapture\<close>. \<open>name[0].isalpha()\<close>
  is only evaluated when every character is in \<open>GROUP_NAME_CHARS\<close>, where it holds
  exactly for the ASCII letters.
\<close>

definition isalpha :: "nat \<Rightarrow> bool" where
  "isalpha c = ((65 \<le> c \<and> c \<le> 90) \<or> (97 \<le> c \<and> c \<le> 122))"

definition name_error :: "pystr \<Rightarrow> bool" where
  "name_error name =
     (if name = [] then True
      else if set name - GROUP_NAME_CHARS \<noteq> {} then True
      else \<not> isalpha (hd name))"

definition mk_NamedBackReference :: "pystr \<Rightarrow> error + elem" where
  "mk_NamedBackReference name =
     (if name_error name then Inl ValueError else Inr (NamedBackReference name))"

definition mk_NamedCapture :: "pystr \<Rightarrow> elem list \<Rightarrow> error + elem" where
  "mk_NamedCapture name children =
     (if name_error name then Inl ValueError
      else Inr (ContainsChildren (NamedCapture name) children))"

definition mk_Backreference :: "int \<Rightarrow> error + elem" where
  "mk_Backreference index = (if index < 0 then Inl ValueError else Inr (Backreference index))"

text \<open>The quantifiers with arguments; the others have no check.\<close>

fun mk_Quantifier :: "quantifier \<Rightarrow> error + elem" where
  "mk_Quantifier (Exactly n) =
     (if n \<le> 0 then Inl ValueError else Inr (ContainsChild (Exactly n) None))"
| "mk_Quantifier (AtLeast n) =
     (if n \<le> 0 then Inl ValueError else Inr (ContainsChild (AtLeast n) None))"
| "mk_Quantifier (Between low high) =
     (if low < 0 then Inl ValueError
      else if high \<le> low then Inl ValueError
      else Inr (ContainsChild (Between low high) None))"
| "mk_Quantifier (BetweenLazy low high) =
     (if low < 0 then Inl ValueError
      else if high \<le> low then Inl ValueError
      else Inr (ContainsChild (BetweenLazy low high) None))"
| "mk_Quantifier q = Inr (ContainsChild q None)"

definition mk_Hex :: "pystr \<Rightarrow> error + elem" where
  "mk_Hex code =
     (if length code \<noteq> 2 \<or> set code - HEX_DIGITS \<noteq> {} then Inl ValueError
      else Inr (Hex code))"

text \<open>\<open>int(code, 16)\<close> for a string of hexadecimal digits.\<close>

definition hex_digit :: "nat \<Rightarrow> nat" where
  "hex_digit c = (if c < 58 then c - 48 else if c < 71 then c - 55 else c - 87)"

definition hex_value :: "pystr \<Rightarrow> nat" where
  "hex_value code = foldl (\<lambda>v c. 16 * v + hex_digit c) 0 code"

text \<open>
  \<open>Unicode.__post_init__\<close> calls \<open>__str__\<close>. The table behind \<open>unicodedata.lookup\<close> is not
  part of the repository: \<open>lookup code\<close> says whether \<open>code\<close> names a character.
\<close>

definition mk_Unicode :: "(pystr \<Rightarrow> bool) \<Rightarrow> pystr \<Rightarrow> error + elem" where
  "mk_Unicode lookup code =
     (if lookup code then Inr (Unicode Named code)
      else if length code = 4 \<and> set code - HEX_DIGITS = {} then Inr (Unicode SingleByte code)
      else if 4 < length code \<and> length code \<le> 8 \<and> set code - HEX_DIGITS = {} then
        (case chr (int (hex_value code)) of
           Inr n \<Rightarrow> Inr (Unicode DoubleByte code)
         | Inl ValueError \<Rightarrow> Inl ValueError
         | Inl e \<Rightarrow> Inl e)
      else Inl ValueError)"

subsection \<open>\<open>add_child\<close> and \<open>replace_child\<close>\<close>

text \<open>
  \<open>isinstance(e, ContainsChild)\<close>, \<open>isinstance(e, ContainsChildren)\<close>,
  \<open>isinstance(e, AnyOf)\<close> and \<open>isinstance(e, STACKABLE)\<close>.
\<close>

fun is_ContainsChild :: "elem \<Rightarrow> bool" where
  "is_ContainsChild (ContainsChild q child) = True"
| "is_ContainsChild e = False"

fun is_ContainsChildren :: "elem \<Rightarrow> bool" where
  "is_ContainsChildren (ContainsChildren k children) = True"
| "is_ContainsChildren e = False"

fun is_AnyOf :: "elem \<Rightarrow> bool" where
  "is_AnyOf (ContainsChildren AnyOf children) = True"
| "is_AnyOf e = False"

definition STACKABLE :: "elem \<Rightarrow> bool" where
  "STACKABLE e = (is_ContainsChild e \<or> is_ContainsChildren e)"

text \<open>A node without the method raises \<open>AttributeError\<close>.\<close>

fun add_child :: "elem \<Rightarrow> elem \<Rightarrow> error + elem" where
  "add_child (ContainsChild q None) child = Inr (ContainsChild q (Some child))"
| "add_child (ContainsChild q (Some c)) child = Inl RuntimeError"
| "add_child (ContainsChildren k children) child = Inr (ContainsChildren k (children @ [child]))"
| "add_child e child = Inl AttributeError"

text \<open>
  \<open>replace_child(old, new)\<close> finds \<open>old\<close> by object identity (\<open>is\<close>), which a value of
  the model does not carry. The builder calls it in two places. In \<open>_push\<close> the node
  \<open>old\<close> is the stack entry above the receiver; that entry was appended to the receiver
  when it was opened and nothing has been appended to the receiver since, so it is the
  receiver's last child (or its only child), and every child of a node is a distinct
  object. The model therefore replaces the last child and compares it by value where the
  source compares by identity; when the child is not found the source raises
  \<open>ValueError\<close>, the replacement being a new object. In \<open>_merge_in_element\<close> the
  children are replaced one by one in order, which the model does by position.
\<close>

fun replace_child :: "elem \<Rightarrow> elem \<Rightarrow> elem \<Rightarrow> error + elem" where
  "replace_child (ContainsChild q child) old new =
     (if child \<noteq> Some old then Inl ValueError else Inr (ContainsChild q (Some new)))"
| "replace_child (ContainsChildren k children) old new =
     (if children \<noteq> [] \<and> last children = old
      then Inr (ContainsChildren k (butlast children @ [new]))
      else Inl ValueError)"
| "replace_child e old new = Inl AttributeError"

section \<open>The builder (\<open>__init__.py\<close>)\<close>

record SuperExpressive =
  check_simple_start_and_end :: bool
  stack :: "elem list"
  named_groups :: "pystr set"
  total_capture_groups :: int
  f_ascii :: bool
  f_ignorecase :: bool
  f_locale :: bool
  f_unicode :: bool
  f_multiline :: bool
  f_dotall :: bool
  f_global :: bool

text \<open>\<open>SuperExpressive(check_simple_start_and_end=b)\<close>; the other fields take their defaults.\<close>

definition init :: "bool \<Rightarrow> SuperExpressive" where
  "init b = \<lparr> check_simple_start_and_end = b, stack = [ContainsChildren Root []],
             named_groups = {}, total_capture_groups = 0,
             f_ascii = False, f_ignorecase = False, f_locale = False, f_unicode = True,
             f_multiline = False, f_dotall = False, f_global = False \<rparr>"

text \<open>
  The two properties have the same body in the source: \<open>_end_defined\<close> tests
  \<open>StartOfInput\<close> as well. Both look at the immediate children of the stack entries.
\<close>

fun has_StartOfInput :: "elem \<Rightarrow> bool" where
  "has_StartOfInput (ContainsChild q child) = (child = Some StartOfInput)"
| "has_StartOfInput (ContainsChildren k children) = list_ex (\<lambda>c. c = StartOfInput) children"
| "has_StartOfInput e = False"

definition start_defined :: "SuperExpressive \<Rightarrow> bool" where
  "start_defined self = list_ex has_StartOfInput (stack self)"

definition end_defined :: "SuperExpressive \<Rightarrow> bool" where
  "end_defined self = list_ex has_StartOfInput (stack self)"

subsection \<open>\<open>_push\<close>\<close>

text \<open>
  The loop over \<open>reversed(stack[:-1])\<close>: the first argument is what is left of that
  sequence, the result is \<open>new_stack\<close> in the order of its appends.
\<close>

fun propagate :: "elem list \<Rightarrow> elem \<Rightarrow> elem \<Rightarrow> error + elem list" where
  "propagate [] previous replaced = Inr []"
| "propagate (stackable # rest) previous replaced =
     and_then (replace_child stackable previous replaced) (\<lambda>r.
       and_then (propagate rest stackable r) (\<lambda>new_stack. Inr (r # new_stack)))"

text \<open>\<open>while stack and isinstance(stack[-1], ContainsChild): stack = stack[:-1]\<close>.\<close>

definition pop_set :: "elem list \<Rightarrow> elem list" where
  "pop_set stk = rev (dropWhile is_ContainsChild (rev stk))"

definition push :: "SuperExpressive \<Rightarrow> elem \<Rightarrow> error + SuperExpressive" where
  "push self element =
     (if stack self = [] then Inl IndexError
      else
        and_then (add_child (last (stack self)) element) (\<lambda>new.
        and_then (propagate (rev (butlast (stack self))) (last (stack self)) new)
          (\<lambda>new_stack.
             if STACKABLE element
             then Inr (self\<lparr>stack := (rev new_stack @ [new]) @ [element]\<rparr>)
             else Inr (self\<lparr>stack := pop_set (rev new_stack @ [new])\<rparr>))))"

subsection \<open>\<open>_merge_in_element\<close>\<close>

text \<open>
  The method is a sequence of \<open>isinstance\<close> tests on \<open>element\<close>; at most one of the
  rewriting tests and then the matching container or anchor test applies to a node, so
  the model has one equation per kind of node. \<open>self\<close> is the state the method is called
  on; the loop over the children calls the method on \<open>merged\<close>, the state returned for
  the child before. The counter \<open>additional_capture_groups\<close> is incremented for a
  \<open>Capture\<close> and never read, so it has no counterpart here: \<open>total_capture_groups\<close> of the
  returned state is that of \<open>self\<close>.
\<close>

fun merge_in_element ::
    "SuperExpressive \<Rightarrow> elem \<Rightarrow> pystr \<Rightarrow> bool \<Rightarrow> error + (SuperExpressive \<times> elem)"
  and merge_children ::
    "SuperExpressive \<Rightarrow> elem list \<Rightarrow> pystr \<Rightarrow> bool \<Rightarrow> error + (SuperExpressive \<times> elem list)"
where
  "merge_in_element self (Backreference index) namespace ignore_start_and_end =
     and_then (mk_Backreference (index + total_capture_groups self)) (\<lambda>element.
       Inr (self, element))"
| "merge_in_element self (ContainsChildren (NamedCapture name) children) namespace
       ignore_start_and_end =
     and_then (if namespace \<noteq> [] then mk_NamedCapture (namespace @ name) children
               else Inr (ContainsChildren (NamedCapture name) children)) (\<lambda>element.
       let name' = (if namespace \<noteq> [] then namespace @ name else name) in
       if name' \<in> named_groups self then Inl ValueError
       else
         and_then (merge_children (self\<lparr>named_groups := insert name' (named_groups self)\<rparr>)
                     children namespace ignore_start_and_end) (\<lambda>(merged, children').
           Inr (merged, ContainsChildren (NamedCapture name') children')))"
| "merge_in_element self (NamedBackReference name) namespace ignore_start_and_end =
     (if namespace \<noteq> []
      then and_then (mk_NamedBackReference name) (\<lambda>element. Inr (self, element))
      else Inr (self, NamedBackReference name))"
| "merge_in_element self (ContainsChild q None) namespace ignore_start_and_end =
     Inr (self, ContainsChild q None)"
| "merge_in_element self (ContainsChild q (Some child)) namespace ignore_start_and_end =
     and_then (merge_in_element self child namespace ignore_start_and_end)
       (\<lambda>(merged, new_child). Inr (merged, ContainsChild q (Some new_child)))"
| "merge_in_element self (ContainsChildren k children) namespace ignore_start_and_end =
     and_then (merge_children self children namespace ignore_start_and_end)
       (\<lambda>(merged, children'). Inr (merged, ContainsChildren k children'))"
| "merge_in_element self StartOfInput namespace ignore_start_and_end =
     (if ignore_start_and_end then Inr (self, Noop)
      else if start_defined self \<and> check_simple_start_and_end self then Inl ValueError
      else if end_defined self \<and> check_simple_start_and_end self then Inl ValueError
      else Inr (self, StartOfInput))"
| "merge_in_element self EndOfInput namespace ignore_start_and_end =
     (if ignore_start_and_end then Inr (self, Noop)
      else if end_defined self \<and> check_simple_start_and_end self then Inl ValueError
      else Inr (self, EndOfInput))"
| "merge_in_element self element namespace ignore_start_and_end = Inr (self, element)"
| "merge_children merged [] namespace ignore_start_and_end = Inr (merged, [])"
| "merge_children merged (child # children) namespace ignore_start_and_end =
     and_then (merge_in_element merged child namespace ignore_start_and_end)
       (\<lambda>(merged', new_child).
          and_then (merge_children merged' children namespace ignore_start_and_end)
            (\<lambda>(merged'', children'). Inr (merged'', new_child # children')))"

subsection \<open>The public operations\<close>

definition quantify :: "SuperExpressive \<Rightarrow> elem \<Rightarrow> error + SuperExpressive" where
  "quantify self q =
     (if stack self = [] then Inl IndexError
      else if is_ContainsChild (last (stack self)) then Inl RuntimeError
      else push self q)"

definition end_call :: "SuperExpressive \<Rightarrow> error + SuperExpressive" where
  "end_call self =
     (if length (stack self) \<le> 1 then Inl RuntimeError
      else if \<not> is_ContainsChildren (last (stack self)) then Inl RuntimeError
      else Inr (self\<lparr>stack := pop_set (butlast (stack self))\<rparr>))"

text \<open>
  In the flag branch the source starts from \<open>self\<close>, not from \<open>merged\<close>, each time
  (\<open>merged = self._replace(...)\<close>). The message of the error for incompatible flags reads
  \<open>expression.flags\<close>, an attribute the class does not have, so what is raised there is
  the \<open>AttributeError\<close> of \<open>__getattr__\<close>. \<open>element.children\<close> needs a container.
\<close>

definition subexpression ::
    "SuperExpressive \<Rightarrow> SuperExpressive \<Rightarrow> pystr \<Rightarrow> bool \<Rightarrow> bool \<Rightarrow> error + SuperExpressive"
where
  "subexpression self expression namespace ignore_flags ignore_start_and_end =
     (if length (stack expression) \<noteq> 1
      then (if stack expression = [] then Inl IndexError else Inl ValueError)
      else
        and_then (merge_in_element self (hd (stack expression)) namespace ignore_start_and_end)
          (\<lambda>(merged, element).
             and_then
               (if \<not> ignore_flags then
                  (if f_unicode self \<noteq> f_unicode expression
                      \<or> f_ascii self \<noteq> f_ascii expression
                      \<or> f_locale self \<noteq> f_locale expression
                   then Inl AttributeError
                   else
                     let m1 = (if f_ignorecase expression
                               then self\<lparr>f_ignorecase := True\<rparr> else merged);
                         m2 = (if f_multiline expression
                               then self\<lparr>f_multiline := True\<rparr> else m1);
                         m3 = (if f_dotall expression
                               then self\<lparr>f_dotall := True\<rparr> else m2);
                         m4 = (if f_global expression
                               then self\<lparr>f_global := True\<rparr> else m3)
                     in Inr m4)
                else Inr merged)
               (\<lambda>merged'.
                  case element of
                    ContainsChildren k children \<Rightarrow>
                      and_then (push merged' (ContainsChildren Subexpression children)) end_call
                  | _ \<Rightarrow> Inl AttributeError)))"

text \<open>\<open>__str__\<close>: \<open>str(self.stack[0])\<close>.\<close>

definition str_expr :: "SuperExpressive \<Rightarrow> error + pystr" where
  "str_expr self = (case stack self of [] \<Rightarrow> Inl IndexError | root # rest \<Rightarrow> Inr (str_elem root))"

text \<open>
  The chainable methods and properties, one constructor each, and their bodies.
  \<open>group_op\<close>, \<open>range_op\<close>, \<open>locale_op\<close>, \<open>end_op\<close> and \<open>subexpression_op\<close> are
  \<open>group\<close>, \<open>range\<close>, \<open>locale\<close>, \<open>end\<close> and \<open>subexpression\<close>; the bodies of the last two
  are \<open>end_call\<close> and \<open>subexpression\<close> above. \<open>lookup\<close> stands for \<open>unicodedata.lookup\<close>.
\<close>

datatype op =
    allow_multiple_matches | line_by_line | case_insensitive | unicode | ascii | locale_op
  | single_line
  | any_char | whitespace_char | non_whitespace_char | digit | non_digit | word | non_word
  | word_boundary | non_word_boundary | newline | carriage_return | tab | null_byte
  | named_backreference pystr | backreference int
  | any_of | group_op | assert_ahead | assert_not_ahead | capture | named_capture pystr
  | optional | zero_or_more | zero_or_more_lazy | one_or_more | one_or_more_lazy
  | exactly int | at_least int | between int int | between_lazy int int
  | start_of_input | end_of_input | any_of_chars pystr | end_op
  | anything_but_string pystr | anything_but_chars pystr | anything_but_range CharT CharT
  | string pystr | char CharT | range_op CharT CharT
  | subexpression_op SuperExpressive pystr bool bool
  | ascii_bell | ascii_backspace | ascii_formfeed | ascii_vertical_tab | backslash
  | start_of_string | end_of_string | hex_char pystr | unicode_char pystr

fun apply_op :: "(pystr \<Rightarrow> bool) \<Rightarrow> SuperExpressive \<Rightarrow> op \<Rightarrow> error + SuperExpressive" where
  "apply_op lookup self allow_multiple_matches = Inr (self\<lparr>f_global := True\<rparr>)"
| "apply_op lookup self line_by_line = Inr (self\<lparr>f_multiline := True\<rparr>)"
| "apply_op lookup self case_insensitive = Inr (self\<lparr>f_ignorecase := True\<rparr>)"
| "apply_op lookup self unicode =
     Inr (self\<lparr>f_ascii := False, f_locale := False, f_unicode := True\<rparr>)"
| "apply_op lookup self ascii =
     Inr (self\<lparr>f_locale := False, f_unicode := False, f_ascii := True\<rparr>)"
| "apply_op lookup self locale_op =
     Inr (self\<lparr>f_ascii := False, f_unicode := False, f_locale := True\<rparr>)"
| "apply_op lookup self single_line = Inr (self\<lparr>f_dotall := True\<rparr>)"
| "apply_op lookup self any_char = push self AnyChar"
| "apply_op lookup self whitespace_char = push self WhitespaceChar"
| "apply_op lookup self non_whitespace_char = push self NonWhitespaceChar"
| "apply_op lookup self digit = push self Digit"
| "apply_op lookup self non_digit = push self NonDigit"
| "apply_op lookup self word = push self Word"
| "apply_op lookup self non_word = push self NonWord"
| "apply_op lookup self word_boundary = push self WordBoundary"
| "apply_op lookup self non_word_boundary = push self NonWordBoundary"
| "apply_op lookup self newline = push self Newline"
| "apply_op lookup self carriage_return = push self CarriageReturn"
| "apply_op lookup self tab = push self Tab"
| "apply_op lookup self null_byte = push self NullByte"
| "apply_op lookup self (named_backreference name) =
     (if name \<notin> named_groups self then Inl ValueError
      else and_then (mk_NamedBackReference name) (push self))"
| "apply_op lookup self (backreference index) =
     (if \<not> (0 \<le> index \<and> index \<le> total_capture_groups self) then Inl ValueError
      else and_then (mk_Backreference index) (push self))"
| "apply_op lookup self any_of = push self (ContainsChildren AnyOf [])"
| "apply_op lookup self group_op = push self (ContainsChildren Group [])"
| "apply_op lookup self assert_ahead = push self (ContainsChildren AssertAhead [])"
| "apply_op lookup self assert_not_ahead = push self (ContainsChildren AssertNotAhead [])"
| "apply_op lookup self capture =
     and_then (push self (ContainsChildren Capture [])) (\<lambda>pushed.
       Inr (pushed\<lparr>total_capture_groups := total_capture_groups self + 1\<rparr>))"
| "apply_op lookup self (named_capture name) =
     (if name \<in> named_groups self then Inl ValueError
      else
        and_then (mk_NamedCapture name []) (\<lambda>element.
        and_then (push self element) (\<lambda>pushed.
          Inr (pushed\<lparr>named_groups := insert name (named_groups self)\<rparr>))))"
| "apply_op lookup self optional = and_then (mk_Quantifier Opt) (quantify self)"
| "apply_op lookup self zero_or_more = and_then (mk_Quantifier ZeroOrMore) (quantify self)"
| "apply_op lookup self zero_or_more_lazy =
     and_then (mk_Quantifier ZeroOrMoreLazy) (quantify self)"
| "apply_op lookup self one_or_more = and_then (mk_Quantifier OneOrMore) (quantify self)"
| "apply_op lookup self one_or_more_lazy =
     and_then (mk_Quantifier OneOrMoreLazy) (quantify self)"
| "apply_op lookup self (exactly n) = and_then (mk_Quantifier (Exactly n)) (quantify self)"
| "apply_op lookup self (at_least n) = and_then (mk_Quantifier (AtLeast n)) (quantify self)"
| "apply_op lookup self (between low high) =
     and_then (mk_Quantifier (Between low high)) (quantify self)"
| "apply_op lookup self (between_lazy low high) =
     and_then (mk_Quantifier (BetweenLazy low high)) (quantify self)"
| "apply_op lookup self start_of_input =
     (if start_defined self \<and> check_simple_start_and_end self then Inl RuntimeError
      else if end_defined self \<and> check_simple_start_and_end self then Inl RuntimeError
      else push self StartOfInput)"
| "apply_op lookup self end_of_input =
     (if end_defined self \<and> check_simple_start_and_end self then Inl RuntimeError
      else push self EndOfInput)"
| "apply_op lookup self (any_of_chars chars) = and_then (mk_AnyOfChars chars) (push self)"
| "apply_op lookup self end_op = end_call self"
| "apply_op lookup self (anything_but_string s) =
     and_then (mk_AnythingButString s) (push self)"
| "apply_op lookup self (anything_but_chars chars) =
     and_then (mk_AnythingButChars chars) (push self)"
| "apply_op lookup self (anything_but_range low high) =
     and_then (mk_range AnythingButRange low high) (push self)"
| "apply_op lookup self (string s) = and_then (mk_String s) (push self)"
| "apply_op lookup self (char c) = and_then (mk_Char c) (push self)"
| "apply_op lookup self (range_op low high) =
     and_then (mk_range Range_elem low high) (push self)"
| "apply_op lookup self (subexpression_op expression namespace ignore_flags
       ignore_start_and_end) =
     subexpression self expression namespace ignore_flags ignore_start_and_end"
| "apply_op lookup self ascii_bell = push self AsciiBell"
| "apply_op lookup self ascii_backspace =
     (if stack self = [] then Inl IndexError
      else if \<not> is_AnyOf (last (stack self)) then Inl RuntimeError
      else push self AsciiBackspace)"
| "apply_op lookup self ascii_formfeed = push self AsciiFormfeed"
| "apply_op lookup self ascii_vertical_tab = push self AsciiVerticalTab"
| "apply_op lookup self backslash = push self Backslash"
| "apply_op lookup self start_of_string = push self StartOfString"
| "apply_op lookup self end_of_string = push self EndOfString"
| "apply_op lookup self (hex_char code) = and_then (mk_Hex code) (push self)"
| "apply_op lookup self (unicode_char code) = and_then (mk_Unicode lookup code) (push self)"

text \<open>A chain of calls from a state: it stops at the first call that raises.\<close>

fun run :: "(pystr \<Rightarrow> bool) \<Rightarrow> SuperExpressive \<Rightarrow> op list \<Rightarrow> error + SuperExpressive" where
  "run lookup self [] = Inr self"
| "run lookup self (c # calls) = and_then (apply_op lookup self c) (\<lambda>next. run lookup next calls)"

section \<open>Notions used to state the properties\<close>

text \<open>A table for \<open>unicodedata.lookup\<close> that knows no name, for the examples.\<close>

definition no_names :: "pystr \<Rightarrow> bool" where
  "no_names code = False"

text \<open>
  The shape of the stack: \<open>linked p c\<close> says that \<open>c\<close> is the child of \<open>p\<close> that is
  being built (its only child, or its last one); \<open>chain\<close> says so of every entry and the
  one above it; \<open>accepts\<close> says that a node takes one more child.
\<close>

fun is_Root :: "elem \<Rightarrow> bool" where
  "is_Root (ContainsChildren Root children) = True"
| "is_Root e = False"

fun linked :: "elem \<Rightarrow> elem \<Rightarrow> bool" where
  "linked (ContainsChild q child) c = (child = Some c)"
| "linked (ContainsChildren k children) c = (children \<noteq> [] \<and> last children = c)"
| "linked e c = False"

fun chain :: "elem list \<Rightarrow> bool" where
  "chain [] = True"
| "chain [x] = True"
| "chain (p # c # rest) = (linked p c \<and> chain (c # rest))"

fun accepts :: "elem \<Rightarrow> bool" where
  "accepts (ContainsChild q child) = (child = None)"
| "accepts (ContainsChildren k children) = True"
| "accepts e = False"

definition well_formed :: "SuperExpressive \<Rightarrow> bool" where
  "well_formed self =
     (stack self \<noteq> [] \<and> is_Root (hd (stack self)) \<and> chain (stack self)
      \<and> accepts (last (stack self)))"

text \<open>
  The rewrite of a source tree that the merge is specified to perform, written directly
  from its description: a backreference gets the offset \<open>n\<close> added to its index, a named
  capture gets the namespace in front of its name, an anchor becomes a no-op when
  anchors are ignored, and nothing else changes.
\<close>

fun rewrite :: "int \<Rightarrow> pystr \<Rightarrow> bool \<Rightarrow> elem \<Rightarrow> elem" where
  "rewrite n namespace ignore (Backreference i) = Backreference (i + n)"
| "rewrite n namespace ignore (ContainsChildren (NamedCapture name) children) =
     ContainsChildren (NamedCapture (namespace @ name)) (map (rewrite n namespace ignore) children)"
| "rewrite n namespace ignore (ContainsChildren k children) =
     ContainsChildren k (map (rewrite n namespace ignore) children)"
| "rewrite n namespace ignore (ContainsChild q None) = ContainsChild q None"
| "rewrite n namespace ignore (ContainsChild q (Some child)) =
     ContainsChild q (Some (rewrite n namespace ignore child))"
| "rewrite n namespace ignore StartOfInput = (if ignore then Noop else StartOfInput)"
| "rewrite n namespace ignore EndOfInput = (if ignore then Noop else EndOfInput)"
| "rewrite n namespace ignore e = e"

text \<open>The same with backreferences only: what is left without namespace and with anchors kept.\<close>

fun shift_backreferences :: "int \<Rightarrow> elem \<Rightarrow> elem" where
  "shift_backreferences n (Backreference i) = Backreference (i + n)"
| "shift_backreferences n (ContainsChildren k children) =
     ContainsChildren k (map (shift_backreferences n) children)"
| "shift_backreferences n (ContainsChild q None) = ContainsChild q None"
| "shift_backreferences n (ContainsChild q (Some child)) =
     ContainsChild q (Some (shift_backreferences n child))"
| "shift_backreferences n e = e"

text \<open>All the leaves of a tree, from left to right: the whole tree, closed containers included.\<close>

fun leaves :: "elem \<Rightarrow> elem list" where
  "leaves (ContainsChild q None) = []"
| "leaves (ContainsChild q (Some child)) = leaves child"
| "leaves (ContainsChildren k children) = concat (map leaves children)"
| "leaves e = [e]"

text \<open>
  The chainable calls that apply a quantifier, with the quantifier each one constructs.
\<close>

fun quantifier_call :: "op \<Rightarrow> quantifier option" where
  "quantifier_call optional = Some Opt"
| "quantifier_call zero_or_more = Some ZeroOrMore"
| "quantifier_call zero_or_more_lazy = Some ZeroOrMoreLazy"
| "quantifier_call one_or_more = Some OneOrMore"
| "quantifier_call one_or_more_lazy = Some OneOrMoreLazy"
| "quantifier_call (exactly n) = Some (Exactly n)"
| "quantifier_call (at_least n) = Some (AtLeast n)"
| "quantifier_call (between low high) = Some (Between low high)"
| "quantifier_call (between_lazy low high) = Some (BetweenLazy low high)"
| "quantifier_call c = None"

text \<open>
  States used as examples. Each is the result of a chain of calls from a new builder; the
  chain is given where the state is used.
\<close>

definition open_capture_example :: SuperExpressive where
  "open_capture_example =
     (init False)\<lparr>stack := [ContainsChildren Root [ContainsChildren Capture [AnyChar]],
                            ContainsChildren Capture [AnyChar]],
                  total_capture_groups := 1\<rparr>"

definition unset_quantifier_example :: SuperExpressive where
  "unset_quantifier_example =
     (init False)\<lparr>stack := [ContainsChildren Root [ContainsChild Opt None],
                            ContainsChild Opt None]\<rparr>"


definition start_anchor_source :: SuperExpressive where
  "start_anchor_source = (init False)\<lparr>stack := [ContainsChildren Root [StartOfInput]]\<rparr>"

definition named_capture_source :: SuperExpressive where
  "named_capture_source =
     (init False)\<lparr>stack := [ContainsChildren Root [ContainsChildren (NamedCapture (py ''a'')) []]],
                  named_groups := {py ''a''}\<rparr>"

definition host_one_capture :: SuperExpressive where
  "host_one_capture =
     (init False)\<lparr>stack := [ContainsChildren Root
                              [ContainsChildren Capture [ContainsChild (AtLeast 3) (Some Digit)]]],
                  total_capture_groups := 1\<rparr>"

definition capture_backreference_source :: SuperExpressive where
  "capture_backreference_source =
     (init False)\<lparr>stack := [ContainsChildren Root
                              [ContainsChildren Capture [ContainsChild (Exactly 2) (Some AnyChar)],
                               Backreference 1]],
                  total_capture_groups := 1\<rparr>"

definition host_after_merge :: SuperExpressive where
  "host_after_merge =
     host_one_capture\<lparr>stack := [ContainsChildren Root
          [ContainsChildren Capture [ContainsChild (AtLeast 3) (Some Digit)],
           ContainsChildren Subexpression
             [ContainsChildren Capture [ContainsChild (Exactly 2) (Some AnyChar)],
              Backreference 2]]]\<rparr>"

definition two_flags_source :: SuperExpressive where
  "two_flags_source = (init False)\<lparr>f_ignorecase := True, f_multiline := True\<rparr>"

definition flagged_capture_source :: SuperExpressive where
  "flagged_capture_source =
     (init False)\<lparr>stack := [ContainsChildren Root [ContainsChildren (NamedCapture (py ''a'')) []]],
                  named_groups := {py ''a''}, f_ignorecase := True\<rparr>"

section \<open>Properties of rendering\<close>







text \<open>
  Claim C8. A quantifier renders a single leaf \<open>X\<close> unwrapped, so zero-or-more of \<open>X\<close> is
  the text of \<open>X\<close> followed by \<open>*\<close>; it wraps a child marked \<open>QuantifierRequiresGroup\<close> in
  \<open>(?:...)\<close>, so zero-or-more of the string \<open>ab\<close> is \<open>(?:ab)*\<close>. The marked nodes are the
  literal string and the composites \<open>Root\<close> and \<open>Subexpression\<close>.
\<close>

theorem quantifier_grouping:
  "(single_leaf X \<longrightarrow>
      str_elem (ContainsChild ZeroOrMore (Some X)) = str_elem X @ py ''*'')
   \<and> str_elem (ContainsChild ZeroOrMore (Some (String (py ''ab'')))) = py ''(?:ab)*''
   \<and> (QuantifierRequiresGroup c \<longrightarrow>
        str_elem (ContainsChild q (Some c)) = py ''(?:'' @ str_elem c @ py '')'' @ symbol q)
   \<and> (single_leaf X \<longrightarrow>
        str_elem (ContainsChild q (Some X)) = str_elem X @ symbol q)
   \<and> (QuantifierRequiresGroup c \<longleftrightarrow>
        (\<exists>s. c = String s) \<or> (\<exists>cs. c = ContainsChildren Root cs)
        \<or> (\<exists>cs. c = ContainsChildren Subexpression cs))"
proof -
  have leaf: "single_leaf X \<Longrightarrow> \<not> QuantifierRequiresGroup X"
    by (cases X) (simp_all add: single_leaf_def)
  have ab: "str_elem (ContainsChild ZeroOrMore (Some (String (py ''ab'')))) = py ''(?:ab)*''"
    by (simp add: translate_def SPECIAL_CHARS_def)
  have char: "QuantifierRequiresGroup c \<longleftrightarrow>
        (\<exists>s. c = String s) \<or> (\<exists>cs. c = ContainsChildren Root cs)
        \<or> (\<exists>cs. c = ContainsChildren Subexpression cs)"
    by (cases c rule: QuantifierRequiresGroup.cases) simp_all
  show ?thesis
    using leaf ab char by simp
qed

text \<open>
  Zero-or-more of a digit is \<open>\d*\<close>; between 4 and 7 of a sub-expression holding \<open>a.\<close>
  is \<open>(?:a.){4,7}\<close>; the string \<open>h\<close> has one character and is wrapped like any other
  string, so zero-or-more of it is \<open>(?:h)*\<close>.
\<close>

theorem quantifier_grouping_witness:
  "single_leaf Digit
   \<and> str_elem (ContainsChild ZeroOrMore (Some Digit)) = 92 # py ''d*''
   \<and> QuantifierRequiresGroup (ContainsChildren Subexpression [Char_elem 97, AnyChar])
   \<and> str_elem (ContainsChild (Between 4 7)
                  (Some (ContainsChildren Subexpression [Char_elem 97, AnyChar])))
       = py ''(?:a.){4,7}''
   \<and> QuantifierRequiresGroup (String (py ''h''))
   \<and> str_elem (ContainsChild ZeroOrMore (Some (String (py ''h'')))) = py ''(?:h)*''"
  using quantifier_grouping
          [of Digit "ContainsChildren Subexpression [Char_elem 97, AnyChar]" "Between 4 7"]
        quantifier_grouping [of Digit "String (py ''h'')" ZeroOrMore]
  by (simp add: single_leaf_def translate_def SPECIAL_CHARS_def str_int_def str_nat.simps)

section \<open>The shape of the stack\<close>

lemma and_then_Inr_iff:
  "and_then r f = Inr y \<longleftrightarrow> (\<exists>x. r = Inr x \<and> f x = Inr y)"
  by (cases r) (simp_all add: and_then_def)

lemma and_then_Inr [simp]: "and_then (Inr x) f = f x"
  by (simp add: and_then_def)

lemma and_then_Inl [simp]: "and_then (Inl e) f = Inl e"
  by (simp add: and_then_def)

lemma chain_snoc:
  "chain (xs @ [a, b]) \<longleftrightarrow> chain (xs @ [a]) \<and> linked a b"
  by (induction xs rule: chain.induct) auto

lemma chain_append_left: "chain (xs @ ys) \<Longrightarrow> chain xs"
proof (induction xs rule: chain.induct)
  case (3 p c rest)
  then show ?case by simp
qed simp_all

lemma is_Root_container [simp]: "is_Root (ContainsChildren k children) = (k = Root)"
  by (cases k) simp_all

lemma replace_child_linked:
  "linked p c \<Longrightarrow> \<exists>r. replace_child p c new = Inr r \<and> linked r new
      \<and> is_Root r = is_Root p"
  by (cases p) auto

lemma is_Root_replace:
  "replace_child p c new = Inr r \<Longrightarrow> is_Root r = is_Root p"
  by (cases p) (auto split: if_splits)

lemma propagate_chain:
  "chain (rev xs @ [previous]) \<Longrightarrow>
   \<exists>ns. propagate xs previous replaced = Inr ns \<and> length ns = length xs
        \<and> chain (rev ns @ [replaced]) \<and> map is_Root ns = map is_Root xs"
proof (induction xs arbitrary: previous replaced)
  case Nil
  then show ?case by simp
next
  case (Cons stackable rest)
  from Cons.prems have ch: "chain (rev rest @ [stackable])" and l: "linked stackable previous"
    by (simp_all add: chain_snoc)
  from replace_child_linked [OF l, of replaced] obtain r where
    r: "replace_child stackable previous replaced = Inr r" "linked r replaced"
       "is_Root r = is_Root stackable"
    by blast
  from Cons.IH [OF ch, of r] obtain ns where
    ns: "propagate rest stackable r = Inr ns" "length ns = length rest"
        "chain (rev ns @ [r])" "map is_Root ns = map is_Root rest"
    by blast
  show ?case
    using r ns by (simp add: chain_snoc)
qed


lemma add_child_accepts:
  "accepts current \<Longrightarrow> \<exists>new. add_child current element = Inr new \<and> linked new element
      \<and> is_Root new = is_Root current \<and> is_ContainsChild new = is_ContainsChild current
      \<and> is_ContainsChildren new = is_ContainsChildren current"
  by (cases current) auto

lemma chain_butlast_last:
  "stk \<noteq> [] \<Longrightarrow> chain stk \<Longrightarrow> chain (rev (rev (butlast stk)) @ [last stk])"
  by simp

lemma pop_set_prefix: "\<exists>zs. stk = pop_set stk @ zs"
proof -
  have "rev stk = takeWhile is_ContainsChild (rev stk) @ dropWhile is_ContainsChild (rev stk)"
    by simp
  then have "stk = rev (dropWhile is_ContainsChild (rev stk))
                   @ rev (takeWhile is_ContainsChild (rev stk))"
    by (metis rev_append rev_rev_ident)
  then show ?thesis unfolding pop_set_def by blast
qed

lemma pop_set_last:
  "pop_set stk \<noteq> [] \<Longrightarrow> \<not> is_ContainsChild (last (pop_set stk))"
  unfolding pop_set_def
  by (simp add: last_rev hd_dropWhile)

lemma pop_set_keeps_root:
  "stk \<noteq> [] \<Longrightarrow> is_Root (hd stk) \<Longrightarrow> pop_set stk \<noteq> [] \<and> hd (pop_set stk) = hd stk"
proof -
  assume ne: "stk \<noteq> []" and root: "is_Root (hd stk)"
  have nc: "\<not> is_ContainsChild (hd stk)"
    using root by (cases "hd stk") simp_all
  have "last (rev stk) = hd stk" using ne by (simp add: last_rev)
  have d: "dropWhile is_ContainsChild (rev stk) \<noteq> []"
  proof
    assume "dropWhile is_ContainsChild (rev stk) = []"
    then have "\<forall>x\<in>set (rev stk). is_ContainsChild x"
      by (simp add: dropWhile_eq_Nil_conv)
    moreover have "hd stk \<in> set (rev stk)" using ne by simp
    ultimately show False using nc by blast
  qed
  have "last (dropWhile is_ContainsChild (rev stk)) = last (rev stk)"
    using d by (metis takeWhile_dropWhile_id last_appendR)
  then show ?thesis
    using d ne by (simp add: pop_set_def hd_rev last_rev)
qed

lemma chain_all_containers:
  "chain (xs @ [x]) \<Longrightarrow> y \<in> set xs \<Longrightarrow> is_ContainsChild y \<or> is_ContainsChildren y"
proof (induction xs arbitrary: y)
  case Nil
  then show ?case by simp
next
  case (Cons a xs)
  have la: "is_ContainsChild a \<or> is_ContainsChildren a"
  proof (cases xs)
    case Nil
    with Cons.prems have "linked a x" by simp
    then show ?thesis by (cases a) simp_all
  next
    case (Cons b bs)
    with Cons.prems have "linked a b" by simp
    then show ?thesis by (cases a) simp_all
  qed
  have "chain (xs @ [x])" using Cons.prems(1) by (cases xs) simp_all
  with Cons.IH Cons.prems(2) la show ?case by auto
qed

lemma not_child_accepts:
  "is_ContainsChild y \<or> is_ContainsChildren y \<Longrightarrow> \<not> is_ContainsChild y \<Longrightarrow> accepts y"
  by (cases y) simp_all

lemma pop_set_accepts:
  assumes ch: "chain stk" and ne: "stk \<noteq> []" and root: "is_Root (hd stk)"
    and top: "is_ContainsChild (last stk) \<or> is_ContainsChildren (last stk)"
  shows "accepts (last (pop_set stk))"
proof -
  from pop_set_keeps_root [OF ne root] have pne: "pop_set stk \<noteq> []" by simp
  obtain zs where zs: "stk = pop_set stk @ zs" using pop_set_prefix by blast
  have "is_ContainsChild (last (pop_set stk)) \<or> is_ContainsChildren (last (pop_set stk))"
  proof (cases "zs = []")
    case True
    with zs top show ?thesis by simp
  next
    case False
    have "last (pop_set stk) \<in> set (butlast stk)"
      using zs pne False
      by (metis append_butlast_last_id butlast_append last_in_set Un_iff set_append)
    moreover have "chain (butlast stk @ [last stk])" using ch ne by simp
    ultimately show ?thesis using chain_all_containers by blast
  qed
  then show ?thesis using pop_set_last [OF pne] not_child_accepts by blast
qed

lemma pop_set_chain: "chain stk \<Longrightarrow> chain (pop_set stk)"
  using pop_set_prefix [of stk] chain_append_left by metis

lemma push_well_formed:
  assumes wf: "well_formed self"
    and fresh: "STACKABLE element \<Longrightarrow> accepts element"
  shows "\<exists>s'. push self element = Inr s' \<and> well_formed s'
           \<and> s' = self\<lparr>stack := stack s'\<rparr>
           \<and> (STACKABLE element \<longrightarrow> length (stack s') = Suc (length (stack self))
                \<and> last (stack s') = element)"
proof -
  from wf have ne: "stack self \<noteq> []" and root: "is_Root (hd (stack self))"
    and ch: "chain (stack self)" and acc: "accepts (last (stack self))"
    by (simp_all add: well_formed_def)
  from add_child_accepts [OF acc, of element] obtain new where
    new: "add_child (last (stack self)) element = Inr new" "linked new element"
         "is_Root new = is_Root (last (stack self))"
         "is_ContainsChild new = is_ContainsChild (last (stack self))"
         "is_ContainsChildren new = is_ContainsChildren (last (stack self))"
    by blast
  from propagate_chain [OF chain_butlast_last [OF ne ch], of new] obtain ns where
    ns: "propagate (rev (butlast (stack self))) (last (stack self)) new = Inr ns"
        "length ns = length (rev (butlast (stack self)))"
        "chain (rev ns @ [new])"
        "map is_Root ns = map is_Root (rev (butlast (stack self)))"
    by blast
  let ?stk = "rev ns @ [new]"
  have len: "length ?stk = length (stack self)" using ns(2) ne by simp
  have hd_root: "is_Root (hd ?stk)"
  proof (cases "butlast (stack self) = []")
    case True
    then have "ns = []" using ns(2) by (metis length_0_conv length_rev)
    moreover have "last (stack self) = hd (stack self)"
      using True ne by (metis append_butlast_last_id append_Nil list.sel(1))
    ultimately show ?thesis using new(3) root by simp
  next
    case False
    then have nne: "ns \<noteq> []" using ns(2) by (metis length_0_conv length_rev)
    have "is_Root (last ns) = is_Root (last (rev (butlast (stack self))))"
      using ns(4) nne False by (metis last_map rev_is_Nil_conv)
    also have "last (rev (butlast (stack self))) = hd (stack self)"
      using False ne by (metis last_rev hd_append2 append_butlast_last_id)
    finally show ?thesis using nne root by (simp add: hd_rev)
  qed
  have top_cont: "is_ContainsChild (last ?stk) \<or> is_ContainsChildren (last ?stk)"
    using new(4,5) acc by (cases "last (stack self)") simp_all
  show ?thesis
  proof (cases "STACKABLE element")
    case True
    have "chain (?stk @ [element])" using ns(3) new(2) by (simp add: chain_snoc)
    moreover have "hd (?stk @ [element]) = hd ?stk" by (simp add: hd_append)
    ultimately show ?thesis
      using True ne new(1) ns(1) hd_root fresh len
      by (simp add: push_def well_formed_def)
  next
    case False
    have "well_formed (self\<lparr>stack := pop_set ?stk\<rparr>)"
      using pop_set_keeps_root [of ?stk] hd_root pop_set_chain [OF ns(3)]
        pop_set_accepts [OF ns(3) _ hd_root top_cont]
      by (simp add: well_formed_def)
    then show ?thesis
      using False ne new(1) ns(1) by (simp add: push_def)
  qed
qed

lemma end_call_well_formed:
  assumes wf: "well_formed self" and ok: "end_call self = Inr s'"
  shows "well_formed s' \<and> s' = self\<lparr>stack := stack s'\<rparr>"
proof -
  from wf have ne: "stack self \<noteq> []" and root: "is_Root (hd (stack self))"
    and ch: "chain (stack self)"
    by (simp_all add: well_formed_def)
  from ok have len: "1 < length (stack self)"
    and s': "s' = self\<lparr>stack := pop_set (butlast (stack self))\<rparr>"
    by (auto simp: end_call_def split: if_splits)
  let ?stk = "butlast (stack self)"
  have bne: "?stk \<noteq> []" using len by (cases "stack self" rule: rev_cases) auto
  have bhd: "hd ?stk = hd (stack self)"
    using bne ne by (metis hd_append2 append_butlast_last_id)
  have bch: "chain ?stk" using ch ne by (metis chain_append_left append_butlast_last_id)
  have "(butlast ?stk @ [last ?stk]) @ [last (stack self)] = stack self"
    using ne bne by simp
  then have "chain (butlast ?stk @ [last ?stk, last (stack self)])"
    using ch by simp
  then have "linked (last ?stk) (last (stack self))"
    using chain_snoc [of "butlast ?stk" "last ?stk" "last (stack self)"] by simp
  then have top: "is_ContainsChild (last ?stk) \<or> is_ContainsChildren (last ?stk)"
    by (cases "last ?stk") simp_all
  show ?thesis
    using s' pop_set_keeps_root [OF bne] root bhd pop_set_chain [OF bch]
      pop_set_accepts [OF bch bne _ top]
    by (simp add: well_formed_def)
qed

section \<open>The merge of a sub-expression\<close>

lemma merge_keeps_and_rewrites:
  "(merge_in_element self e ns b = Inr (m, e') \<longrightarrow>
      m\<lparr>named_groups := {}\<rparr> = self\<lparr>named_groups := {}\<rparr>
      \<and> total_capture_groups m = total_capture_groups self
      \<and> e' = rewrite (total_capture_groups self) ns b e)"
  "(merge_children self cs ns b = Inr (m, cs') \<longrightarrow>
      m\<lparr>named_groups := {}\<rparr> = self\<lparr>named_groups := {}\<rparr>
      \<and> total_capture_groups m = total_capture_groups self
      \<and> cs' = map (rewrite (total_capture_groups self) ns b) cs)"
  apply (induction self e ns b and self cs ns b arbitrary: m e' and m cs'
       rule: merge_in_element_merge_children.induct)
  apply (auto simp: mk_Backreference_def mk_NamedBackReference_def mk_NamedCapture_def
        and_then_Inr_iff Let_def split: if_splits)
  apply metis
  done

lemma merge_in_element_keeps:
  assumes "merge_in_element self e ns b = Inr (m, e')"
  shows "m = self\<lparr>named_groups := named_groups m\<rparr>"
    and "e' = rewrite (total_capture_groups self) ns b e"
proof -
  from assms merge_keeps_and_rewrites(1) [of self e ns b m e']
  have eq: "m\<lparr>named_groups := {}\<rparr> = self\<lparr>named_groups := {}\<rparr>"
    and "e' = rewrite (total_capture_groups self) ns b e"
    by simp_all
  then show "e' = rewrite (total_capture_groups self) ns b e" by simp
  have "m = (m\<lparr>named_groups := {}\<rparr>)\<lparr>named_groups := named_groups m\<rparr>" by simp
  also have "\<dots> = (self\<lparr>named_groups := {}\<rparr>)\<lparr>named_groups := named_groups m\<rparr>"
    using eq by simp
  finally show "m = self\<lparr>named_groups := named_groups m\<rparr>" by simp
qed

lemma rewrite_plain:
  "rewrite n [] False e = shift_backreferences n e"
  by (induction n "[]::pystr" False e rule: rewrite.induct) simp_all

lemma push_keeps:
  "push self element = Inr s' \<Longrightarrow> s' = self\<lparr>stack := stack s'\<rparr>"
  by (auto simp: push_def and_then_Inr_iff split: if_splits)

lemma end_call_keeps:
  "end_call self = Inr s' \<Longrightarrow> s' = self\<lparr>stack := stack s'\<rparr>"
  by (auto simp: end_call_def split: if_splits)

lemma rewrite_container:
  "rewrite n ns b x = ContainsChildren k' cs' \<Longrightarrow>
   \<exists>k cs. x = ContainsChildren k cs \<and> cs' = map (rewrite n ns b) cs"
  by (cases "(n, ns, b, x)" rule: rewrite.cases) (auto split: if_splits)

lemma subexpression_result:
  assumes "subexpression self expression ns igf ise = Inr s'"
  shows "\<exists>k cs merged'. stack expression = [ContainsChildren k cs]
      \<and> stack merged' = stack self
      \<and> total_capture_groups merged' = total_capture_groups self
      \<and> check_simple_start_and_end merged' = check_simple_start_and_end self
      \<and> and_then (push merged'
            (ContainsChildren Subexpression
               (map (rewrite (total_capture_groups self) ns ise) cs))) end_call = Inr s'"
proof -
  from assms have len: "length (stack expression) = 1"
    by (auto simp: subexpression_def split: if_splits)
  then obtain x where x: "stack expression = [x]"
    by (cases "stack expression") auto
  from assms len x obtain merged element merged' where
    m: "merge_in_element self x ns ise = Inr (merged, element)"
    and f: "(if \<not> igf then
                  (if f_unicode self \<noteq> f_unicode expression
                      \<or> f_ascii self \<noteq> f_ascii expression
                      \<or> f_locale self \<noteq> f_locale expression
                   then Inl AttributeError
                   else
                     let m1 = (if f_ignorecase expression
                               then self\<lparr>f_ignorecase := True\<rparr> else merged);
                         m2 = (if f_multiline expression
                               then self\<lparr>f_multiline := True\<rparr> else m1);
                         m3 = (if f_dotall expression
                               then self\<lparr>f_dotall := True\<rparr> else m2);
                         m4 = (if f_global expression
                               then self\<lparr>f_global := True\<rparr> else m3)
                     in Inr m4)
                else Inr merged) = Inr merged'"
    and p: "(case element of
                    ContainsChildren k children \<Rightarrow>
                      and_then (push merged' (ContainsChildren Subexpression children)) end_call
                  | _ \<Rightarrow> Inl AttributeError) = Inr s'"
    by (auto simp: subexpression_def and_then_Inr_iff)
  from merge_in_element_keeps [OF m] have
    mk: "merged = self\<lparr>named_groups := named_groups merged\<rparr>"
    and el: "element = rewrite (total_capture_groups self) ns ise x"
    by simp_all
  have st: "stack merged = stack self" "total_capture_groups merged = total_capture_groups self"
    "check_simple_start_and_end merged = check_simple_start_and_end self"
    by (subst mk, simp)+
  from f st have st': "stack merged' = stack self"
      "total_capture_groups merged' = total_capture_groups self"
      "check_simple_start_and_end merged' = check_simple_start_and_end self"
    by (auto simp: Let_def split: if_splits)
  from p obtain k' cs' where e: "element = ContainsChildren k' cs'"
    by (cases element) simp_all
  from e el have "rewrite (total_capture_groups self) ns ise x = ContainsChildren k' cs'"
    by simp
  from rewrite_container [OF this] obtain k cs where
    kc: "x = ContainsChildren k cs" "cs' = map (rewrite (total_capture_groups self) ns ise) cs"
    by blast
  show ?thesis
    using x kc st' p e by auto
qed


lemma well_formed_stack_cong:
  "stack a = stack b \<Longrightarrow> well_formed a = well_formed b"
  by (simp add: well_formed_def)

lemma push_well_formed_result:
  "well_formed self \<Longrightarrow> (STACKABLE element \<Longrightarrow> accepts element) \<Longrightarrow>
   push self element = Inr s' \<Longrightarrow> well_formed s'"
  using push_well_formed [of self element] by auto

lemma push_succeeds:
  "well_formed self \<Longrightarrow> (STACKABLE element \<Longrightarrow> accepts element) \<Longrightarrow>
   \<exists>s'. push self element = Inr s'"
  using push_well_formed [of self element] by auto

lemma subexpression_well_formed:
  assumes wf: "well_formed self"
    and ok: "subexpression self expression ns igf ise = Inr s'"
  shows "well_formed s'"
proof -
  from subexpression_result [OF ok] obtain k cs merged' where
    r: "stack merged' = stack self"
       "and_then (push merged'
            (ContainsChildren Subexpression
               (map (rewrite (total_capture_groups self) ns ise) cs))) end_call = Inr s'"
    by blast
  from r(1) wf have wf': "well_formed merged'"
    using well_formed_stack_cong by blast
  from r(2) obtain s1 where
    s1: "push merged' (ContainsChildren Subexpression
               (map (rewrite (total_capture_groups self) ns ise) cs)) = Inr s1"
        "end_call s1 = Inr s'"
    by (auto simp: and_then_Inr_iff)
  have "well_formed s1"
    using push_well_formed_result [OF wf' _ s1(1)] by simp
  then show ?thesis using end_call_well_formed s1(2) by blast
qed

lemma mk_leaf_not_stackable:
  "mk_AnyOfChars a = Inr e \<Longrightarrow> \<not> STACKABLE e"
  "mk_AnythingButString a = Inr e \<Longrightarrow> \<not> STACKABLE e"
  "mk_AnythingButChars a = Inr e \<Longrightarrow> \<not> STACKABLE e"
  "mk_range AnythingButRange l h = Inr e \<Longrightarrow> \<not> STACKABLE e"
  "mk_range Range_elem l h = Inr e \<Longrightarrow> \<not> STACKABLE e"
  "mk_Char c = Inr e \<Longrightarrow> \<not> STACKABLE e"
  "mk_String a = Inr e \<Longrightarrow> \<not> STACKABLE e"
  "mk_NamedBackReference a = Inr e \<Longrightarrow> \<not> STACKABLE e"
  "mk_Backreference i = Inr e \<Longrightarrow> \<not> STACKABLE e"
  "mk_Hex a = Inr e \<Longrightarrow> \<not> STACKABLE e"
  "mk_Unicode lookup a = Inr e \<Longrightarrow> \<not> STACKABLE e"
  by (auto simp: mk_AnyOfChars_def mk_AnythingButString_def mk_AnythingButChars_def
        mk_range_def mk_Char_def mk_String_def mk_NamedBackReference_def mk_Backreference_def
        mk_Hex_def mk_Unicode_def STACKABLE_def and_then_Inr_iff
      split: if_splits CharT.splits sum.splits error.splits)

lemma mk_Quantifier_accepts:
  "mk_Quantifier q = Inr e \<Longrightarrow> accepts e \<and> e = ContainsChild q None"
  by (cases q) (auto split: if_splits)

lemma mk_NamedCapture_accepts:
  "mk_NamedCapture name cs = Inr e \<Longrightarrow> accepts e"
  by (auto simp: mk_NamedCapture_def split: if_splits)

lemma well_formed_update [simp]:
  "well_formed (self\<lparr>f_global := a\<rparr>) = well_formed self"
  "well_formed (self\<lparr>f_multiline := a\<rparr>) = well_formed self"
  "well_formed (self\<lparr>f_ignorecase := a\<rparr>) = well_formed self"
  "well_formed (self\<lparr>f_dotall := a\<rparr>) = well_formed self"
  "well_formed (self\<lparr>f_ascii := a\<rparr>) = well_formed self"
  "well_formed (self\<lparr>f_locale := a\<rparr>) = well_formed self"
  "well_formed (self\<lparr>f_unicode := a\<rparr>) = well_formed self"
  "well_formed (self\<lparr>total_capture_groups := n\<rparr>) = well_formed self"
  "well_formed (self\<lparr>named_groups := g\<rparr>) = well_formed self"
  by (simp_all add: well_formed_def)

lemma push_wf:
  "push self element = Inr s' \<Longrightarrow> well_formed self \<Longrightarrow>
   (STACKABLE element \<longrightarrow> accepts element) \<longrightarrow> well_formed s'"
  using push_well_formed [of self element] by auto

lemma quantify_well_formed:
  "quantify self q = Inr s' \<Longrightarrow> well_formed self \<Longrightarrow> accepts q \<longrightarrow> well_formed s'"
  by (auto simp: quantify_def split: if_splits dest: push_wf)

lemma apply_op_well_formed:
  assumes wf: "well_formed self" and ok: "apply_op lookup self c = Inr s'"
  shows "well_formed s'"
  using wf ok
  by (cases c)
     (auto simp: and_then_Inr_iff STACKABLE_def
        split: if_splits
        dest: mk_leaf_not_stackable mk_Quantifier_accepts mk_NamedCapture_accepts
          push_wf quantify_well_formed end_call_well_formed [THEN conjunct1]
          subexpression_well_formed)

lemma run_well_formed:
  "well_formed self \<Longrightarrow> run lookup self calls = Inr s' \<Longrightarrow> well_formed s'"
proof (induction calls arbitrary: self)
  case Nil
  then show ?case by simp
next
  case (Cons c calls)
  then show ?case
    by (auto simp: and_then_Inr_iff dest: apply_op_well_formed)
qed

lemma init_well_formed: "well_formed (init b)"
  by (simp add: well_formed_def init_def)

section \<open>Properties of the builder\<close>

lemmas builder_defs =
  init_def push_def pop_set_def STACKABLE_def quantify_def end_call_def subexpression_def
  str_expr_def start_defined_def end_defined_def no_names_def
  mk_AnyOfChars_def mk_AnythingButString_def mk_AnythingButChars_def mk_range_def mk_Char_def
  mk_String_def mk_NamedBackReference_def mk_NamedCapture_def mk_Backreference_def mk_Hex_def
  name_error_def isalpha_def GROUP_NAME_CHARS_def Let_def

lemma reachable_well_formed:
  "run lookup (init b) calls = Inr s \<Longrightarrow> well_formed s"
  using run_well_formed [OF init_well_formed] by blast






text \<open>
  Claim C4, as stated, fails for index 0: a new builder has no capture group and accepts
  \<open>backreference(0)\<close>.
\<close>

theorem backreference_zero_counterexample:
  "total_capture_groups (init False) = 0
   \<and> apply_op no_names (init False) (backreference 0)
       = Inr ((init False)\<lparr>stack := [ContainsChildren Root [Backreference 0]]\<rparr>)"
  by (simp add: builder_defs)

text \<open>
  Claim C4, amended. In a state with \<open>total_capture_groups = n\<close>, \<open>backreference\<close>
  raises for every negative index and for every index above \<open>n\<close>, and succeeds for every
  index from 0 to \<open>n\<close>. The count starts at 0 and each \<open>capture\<close> adds one, so the first
  capture is number 1.
\<close>

theorem backreference_bounds:
  assumes "run lookup (init b) calls = Inr s"
  shows "(index < 0 \<or> total_capture_groups s < index \<longrightarrow>
            apply_op lookup s (backreference index) = Inl ValueError)
     \<and> (0 \<le> index \<and> index \<le> total_capture_groups s \<longrightarrow>
            (\<exists>s'. apply_op lookup s (backreference index) = Inr s'))
     \<and> total_capture_groups (init b) = 0
     \<and> (\<forall>s'. apply_op lookup s capture = Inr s' \<longrightarrow>
            total_capture_groups s' = total_capture_groups s + 1)"
proof -
  from assms have wf: "well_formed s" by (rule reachable_well_formed)
  have "\<exists>s'. push s (Backreference index) = Inr s'"
    using push_succeeds [OF wf, of "Backreference index"] by (simp add: STACKABLE_def)
  then have ok: "0 \<le> index \<and> index \<le> total_capture_groups s \<longrightarrow>
            (\<exists>s'. apply_op lookup s (backreference index) = Inr s')"
    by (auto simp: mk_Backreference_def)
  have bad: "index < 0 \<or> total_capture_groups s < index \<longrightarrow>
            apply_op lookup s (backreference index) = Inl ValueError"
    by auto
  have cap: "\<forall>s'. apply_op lookup s capture = Inr s' \<longrightarrow>
            total_capture_groups s' = total_capture_groups s + 1"
    by (auto simp: and_then_Inr_iff)
  show ?thesis using ok bad cap by (simp add: init_def)
qed

theorem backreference_bounds_witness:
  "run no_names (init False) [capture, any_char] = Inr open_capture_example
   \<and> total_capture_groups open_capture_example = 1
   \<and> apply_op no_names open_capture_example (backreference 2) = Inl ValueError
   \<and> apply_op no_names open_capture_example (backreference (- 1)) = Inl ValueError
   \<and> apply_op no_names open_capture_example (backreference 1)
       = Inr (open_capture_example
               \<lparr>stack := [ContainsChildren Root [ContainsChildren Capture [AnyChar, Backreference 1]],
                          ContainsChildren Capture [AnyChar, Backreference 1]]\<rparr>)
   \<and> apply_op no_names open_capture_example capture
       = Inr (open_capture_example
               \<lparr>stack := [ContainsChildren Root
                            [ContainsChildren Capture [AnyChar, ContainsChildren Capture []]],
                          ContainsChildren Capture [AnyChar, ContainsChildren Capture []],
                          ContainsChildren Capture []],
                total_capture_groups := 2\<rparr>)"
proof -
  have r: "run no_names (init False) [capture, any_char] = Inr open_capture_example"
    by (simp add: open_capture_example_def builder_defs)
  show ?thesis
    using r backreference_bounds [OF r, of 2] backreference_bounds [OF r, of "- 1"]
      backreference_bounds [OF r, of 1]
    by (simp add: open_capture_example_def builder_defs)
qed

lemma quantifier_call_apply:
  "quantifier_call c = Some q \<Longrightarrow>
   apply_op lookup s c = and_then (mk_Quantifier q) (quantify s)"
  by (cases c) simp_all

lemma mk_Quantifier_cases:
  "mk_Quantifier q = Inl ValueError \<or> mk_Quantifier q = Inr (ContainsChild q None)"
  by (cases q) auto

text \<open>
  Claim C9. In every state reached from a new builder by successful calls: if the top of
  the stack is a quantifier without a child, every quantifier call raises, and
  \<open>_quantify\<close> raises \<open>RuntimeError\<close>; if it is not, every quantifier call whose quantifier
  can be constructed succeeds and leaves that quantifier, still without child, on top.
\<close>

theorem quantifiers_do_not_stack:
  assumes "run lookup (init b) calls = Inr s"
    and "quantifier_call c = Some q"
  shows "(last (stack s) = ContainsChild q0 None \<longrightarrow>
            (\<exists>e. apply_op lookup s c = Inl e)
            \<and> quantify s (ContainsChild q None) = Inl RuntimeError)
     \<and> ((\<forall>q1. last (stack s) \<noteq> ContainsChild q1 None)
          \<and> mk_Quantifier q = Inr (ContainsChild q None) \<longrightarrow>
            (\<exists>s'. apply_op lookup s c = Inr s' \<and> last (stack s') = ContainsChild q None))"
proof (intro conjI impI)
  from assms(1) have wf: "well_formed s" by (rule reachable_well_formed)
  then have ne: "stack s \<noteq> []" and acc: "accepts (last (stack s))"
    by (simp_all add: well_formed_def)
  {
    assume top: "last (stack s) = ContainsChild q0 None"
    then show "quantify s (ContainsChild q None) = Inl RuntimeError"
      using ne by (simp add: quantify_def)
    then show "\<exists>e. apply_op lookup s c = Inl e"
      using mk_Quantifier_cases [of q] quantifier_call_apply [OF assms(2), of lookup s]
      by auto
  }
  {
    assume a: "(\<forall>q1. last (stack s) \<noteq> ContainsChild q1 None)
          \<and> mk_Quantifier q = Inr (ContainsChild q None)"
    have nq: "\<not> is_ContainsChild (last (stack s))"
      using a acc by (cases "last (stack s)") auto
    from push_well_formed [OF wf, of "ContainsChild q None"] obtain s' where
      "push s (ContainsChild q None) = Inr s'" "last (stack s') = ContainsChild q None"
      by (auto simp: STACKABLE_def)
    then show "\<exists>s'. apply_op lookup s c = Inr s' \<and> last (stack s') = ContainsChild q None"
      using a nq ne quantifier_call_apply [OF assms(2), of lookup s]
      by (simp add: quantify_def)
  }
qed

theorem quantifiers_do_not_stack_witness:
  "run no_names (init False) [optional] = Inr unset_quantifier_example
   \<and> quantifier_call (exactly 3) = Some (Exactly 3)
   \<and> last (stack unset_quantifier_example) = ContainsChild Opt None
   \<and> apply_op no_names unset_quantifier_example (exactly 3) = Inl RuntimeError
   \<and> run no_names (init False) [capture, any_char] = Inr open_capture_example
   \<and> last (stack open_capture_example) = ContainsChildren Capture [AnyChar]
   \<and> mk_Quantifier (Exactly 3) = Inr (ContainsChild (Exactly 3) None)
   \<and> apply_op no_names open_capture_example (exactly 3)
       = Inr (open_capture_example
               \<lparr>stack := [ContainsChildren Root
                            [ContainsChildren Capture [AnyChar, ContainsChild (Exactly 3) None]],
                          ContainsChildren Capture [AnyChar, ContainsChild (Exactly 3) None],
                          ContainsChild (Exactly 3) None]\<rparr>)"
proof -
  have r1: "run no_names (init False) [optional] = Inr unset_quantifier_example"
    by (simp add: unset_quantifier_example_def builder_defs)
  have r2: "run no_names (init False) [capture, any_char] = Inr open_capture_example"
    by (simp add: open_capture_example_def builder_defs)
  have q: "quantifier_call (exactly 3) = Some (Exactly 3)" by simp
  show ?thesis
    using r1 r2 quantifiers_do_not_stack [OF r1 q, of Opt]
      quantifiers_do_not_stack [OF r2 q, of Opt]
    by (simp add: open_capture_example_def unset_quantifier_example_def builder_defs)
qed





section \<open>Properties of the merge\<close>

text \<open>
  Claim C5, as stated, fails in its last part: the merged content does not always render
  as the source. With the default \<open>ignore_start_and_end\<close> a source that renders as \<open>^\<close>
  is merged as a no-op that renders as the empty string; with the namespace \<open>n\<close> a source
  that renders as \<open>(?P<a>)\<close> is merged as \<open>(?P<na>)\<close>.
\<close>

theorem merged_content_counterexample:
  "run no_names (init False) [start_of_input] = Inr start_anchor_source
   \<and> str_expr start_anchor_source = Inr (py ''^'')
   \<and> subexpression (init False) start_anchor_source [] True True
       = Inr ((init False)\<lparr>stack := [ContainsChildren Root [ContainsChildren Subexpression [Noop]]]\<rparr>)
   \<and> str_expr ((init False)\<lparr>stack := [ContainsChildren Root [ContainsChildren Subexpression [Noop]]]\<rparr>)
       = Inr []
   \<and> run no_names (init False) [named_capture (py ''a''), end_op] = Inr named_capture_source
   \<and> str_expr named_capture_source = Inr (py ''(?P<a>)'')
   \<and> subexpression (init False) named_capture_source (py ''n'') True False
       = Inr ((init False)\<lparr>stack := [ContainsChildren Root
                 [ContainsChildren Subexpression [ContainsChildren (NamedCapture (py ''na'')) []]]],
               named_groups := {py ''na''}\<rparr>)
   \<and> str_expr ((init False)\<lparr>stack := [ContainsChildren Root
                 [ContainsChildren Subexpression [ContainsChildren (NamedCapture (py ''na'')) []]]],
               named_groups := {py ''na''}\<rparr>)
       = Inr (py ''(?P<na>)'')"
  by (simp add: start_anchor_source_def named_capture_source_def builder_defs
        translate_def SPECIAL_CHARS_def)

lemma leaves_rewrite:
  "leaves (rewrite n ns ise e) = map (rewrite n ns ise) (leaves e)"
  by (induction n ns ise e rule: rewrite.induct)
     (auto simp: map_concat comp_def intro!: arg_cong [where f = concat])

text \<open>
  Claim C5, amended. When \<open>subexpression\<close> succeeds, the source's stack is its root alone,
  and the node spliced into the target holds the root's children rewritten by \<open>rewrite\<close>
  with the target's \<open>total_capture_groups\<close> as offset: leaf by leaf, a backreference with
  index \<open>i\<close> becomes one with index \<open>i\<close> plus that count, a named capture gets the
  namespace in front of its name, an anchor becomes a no-op when anchors are ignored. The
  spliced node renders as the concatenation of its children. Without namespace and with
  anchors kept, only the backreference indices differ from the source.
\<close>

theorem merge_rewrites_source:
  assumes "subexpression target source namespace ignore_flags ignore_start_and_end = Inr s'"
  shows "\<exists>k children merged.
           stack source = [ContainsChildren k children]
         \<and> stack merged = stack target
         \<and> and_then
             (push merged
               (ContainsChildren Subexpression
                 (map (rewrite (total_capture_groups target) namespace ignore_start_and_end)
                    children)))
             end_call = Inr s'
         \<and> str_elem
             (ContainsChildren Subexpression
               (map (rewrite (total_capture_groups target) namespace ignore_start_and_end)
                  children))
           = concat (map (\<lambda>c. str_elem
                 (rewrite (total_capture_groups target) namespace ignore_start_and_end c))
               children)
         \<and> concat (map leaves
               (map (rewrite (total_capture_groups target) namespace ignore_start_and_end)
                  children))
           = map (rewrite (total_capture_groups target) namespace ignore_start_and_end)
               (concat (map leaves children))
         \<and> rewrite (total_capture_groups target) namespace ignore_start_and_end (Backreference i)
           = Backreference (i + total_capture_groups target)
         \<and> (namespace = [] \<and> \<not> ignore_start_and_end \<longrightarrow>
               map (rewrite (total_capture_groups target) namespace ignore_start_and_end) children
               = map (shift_backreferences (total_capture_groups target)) children)"
proof -
  from subexpression_result [OF assms] obtain k cs merged' where
    r: "stack source = [ContainsChildren k cs]" "stack merged' = stack target"
       "and_then (push merged'
            (ContainsChildren Subexpression
               (map (rewrite (total_capture_groups target) namespace ignore_start_and_end) cs)))
          end_call = Inr s'"
    by blast
  have l: "concat (map leaves
               (map (rewrite (total_capture_groups target) namespace ignore_start_and_end) cs))
           = map (rewrite (total_capture_groups target) namespace ignore_start_and_end)
               (concat (map leaves cs))"
    by (simp add: map_concat comp_def leaves_rewrite)
  have p: "namespace = [] \<and> \<not> ignore_start_and_end \<longrightarrow>
               map (rewrite (total_capture_groups target) namespace ignore_start_and_end) cs
               = map (shift_backreferences (total_capture_groups target)) cs"
    by (auto simp: rewrite_plain)
  show ?thesis
    using r l p by (auto simp: comp_def)
qed

theorem merge_rewrites_source_witness:
  "subexpression host_one_capture capture_backreference_source [] True False
     = Inr host_after_merge
   \<and> stack capture_backreference_source
       = [ContainsChildren Root
            [ContainsChildren Capture [ContainsChild (Exactly 2) (Some AnyChar)],
             Backreference 1]]
   \<and> total_capture_groups host_one_capture = 1
   \<and> str_expr capture_backreference_source = Inr (py ''(.{2})'' @ 92 # py ''1'')
   \<and> str_expr host_after_merge
       = Inr (py ''('' @ 92 # py ''d{3,})(.{2})'' @ 92 # py ''2'')"
proof -
  have r: "subexpression host_one_capture capture_backreference_source [] True False
     = Inr host_after_merge"
    by (simp add: host_one_capture_def capture_backreference_source_def host_after_merge_def
          builder_defs)
  show ?thesis
    using r merge_rewrites_source [OF r, of 1]
    by (simp add: host_one_capture_def capture_backreference_source_def host_after_merge_def
          builder_defs translate_def SPECIAL_CHARS_def str_int_def str_nat.simps)
qed

lemma subexpression_keeps_total:
  assumes "subexpression self expression namespace ignore_flags ignore_start_and_end = Inr s'"
  shows "total_capture_groups s' = total_capture_groups self"
proof -
  from subexpression_result [OF assms] obtain cs merged' s1 where
    t: "total_capture_groups merged' = total_capture_groups self"
    and p: "push merged'
            (ContainsChildren Subexpression
               (map (rewrite (total_capture_groups self) namespace ignore_start_and_end) cs))
          = Inr s1"
    and e: "end_call s1 = Inr s'"
    by (auto simp: and_then_Inr_iff)
  have "total_capture_groups s1 = total_capture_groups merged'"
    by (subst push_keeps [OF p]) simp
  moreover have "total_capture_groups s' = total_capture_groups s1"
    by (subst end_call_keeps [OF e]) simp
  ultimately show ?thesis using t by simp
qed

text \<open>
  Claim C1 on the code: a host with one capture, merged with a source that has one capture
  and a backreference to it. The result renders with two capture groups and the
  backreference shifted to 2, but its \<open>total_capture_groups\<close> is still 1, and
  \<open>backreference(2)\<close> is refused.
\<close>

theorem merge_keeps_capture_count:
  "run no_names (init False) [capture, at_least 3, digit, end_op] = Inr host_one_capture
   \<and> run no_names (init False) [capture, exactly 2, any_char, end_op, backreference 1]
       = Inr capture_backreference_source
   \<and> total_capture_groups host_one_capture = 1
   \<and> total_capture_groups capture_backreference_source = 1
   \<and> apply_op no_names host_one_capture
         (subexpression_op capture_backreference_source [] True True)
       = Inr host_after_merge
   \<and> str_expr host_after_merge = Inr (py ''('' @ 92 # py ''d{3,})(.{2})'' @ 92 # py ''2'')
   \<and> total_capture_groups host_after_merge = 1
   \<and> apply_op no_names host_after_merge (backreference 2) = Inl ValueError"
  by (simp add: host_one_capture_def capture_backreference_source_def host_after_merge_def
        builder_defs translate_def SPECIAL_CHARS_def str_int_def str_nat.simps)

lemma incompatible_flags_raise:
  "\<not> ignore_flags \<Longrightarrow>
   f_unicode self \<noteq> f_unicode expression \<or> f_ascii self \<noteq> f_ascii expression
     \<or> f_locale self \<noteq> f_locale expression \<Longrightarrow>
   \<exists>e. subexpression self expression namespace ignore_flags ignore_start_and_end = Inl e"
  by (cases "merge_in_element self (hd (stack expression)) namespace ignore_start_and_end")
     (auto simp: subexpression_def)

text \<open>
  Claim C6 on the code: merging, with \<open>ignore_flags\<close> false, a source that is both
  case-insensitive and multiline into a new builder gives a state that is multiline and
  not case-insensitive; merging a case-insensitive source with a named capture gives a
  state whose \<open>named_groups\<close> is empty although the capture is in its tree.
\<close>

theorem flag_merge_keeps_last_flag_only:
  "run no_names (init False) [case_insensitive, line_by_line] = Inr two_flags_source
   \<and> f_ignorecase two_flags_source \<and> f_multiline two_flags_source
   \<and> apply_op no_names (init False) (subexpression_op two_flags_source [] False True)
       = Inr ((init False)\<lparr>stack := [ContainsChildren Root [ContainsChildren Subexpression []]],
                           f_multiline := True\<rparr>)
   \<and> \<not> f_ignorecase ((init False)\<lparr>stack := [ContainsChildren Root [ContainsChildren Subexpression []]],
                           f_multiline := True\<rparr>)
   \<and> run no_names (init False) [case_insensitive, named_capture (py ''a''), end_op]
       = Inr flagged_capture_source
   \<and> apply_op no_names (init False) (subexpression_op flagged_capture_source [] False True)
       = Inr ((init False)\<lparr>stack := [ContainsChildren Root
                 [ContainsChildren Subexpression [ContainsChildren (NamedCapture (py ''a'')) []]]],
               f_ignorecase := True\<rparr>)
   \<and> named_groups ((init False)\<lparr>stack := [ContainsChildren Root
                 [ContainsChildren Subexpression [ContainsChildren (NamedCapture (py ''a'')) []]]],
               f_ignorecase := True\<rparr>) = {}"
  by (simp add: two_flags_source_def flagged_capture_source_def builder_defs)

end
